theory Spec2Isabelle
  imports Main
begin

section \<open>Failure values\<close>

text \<open>
  The containers report contract violations through \<^verbatim>\<open>assert\<close>; every assertion of the
  source is a branch of the model that returns the matching error. Unchecked accesses that
  leave an allocation (a vector index past the end, a cell of \<^verbatim>\<open>m_dense\<close> past the
  capacity, a null bucket pointer) have no defined result in C++ and are reported as
  \<open>InvalidAccess\<close>.
\<close>

datatype error =
    KeyAlreadyExists    \<comment> \<open>assert "Key already exists in DenseArray"\<close>
  | KeyDoesNotExist     \<comment> \<open>assert "Key does not exist in DenseArray"\<close>
  | IndexOutOfRange     \<comment> \<open>assert "Index out of range" (DenseArray)\<close>
  | IndexOutOfBounds    \<comment> \<open>assert "Index out of bounds!" (IndirectionTable)\<close>
  | InvalidAccess       \<comment> \<open>unchecked access outside an allocation, or through a null pointer\<close>

text \<open>\<^verbatim>\<open>size_t\<close> is 64 bits wide; the only places where it can wrap are written out.\<close>

definition SIZE_MAX :: nat where
  "SIZE_MAX = 2 ^ 64 - 1"

definition size_pred :: "nat \<Rightarrow> nat" where
  \<comment> \<open>\<^verbatim>\<open>n - 1\<close> on \<^verbatim>\<open>size_t\<close>\<close>
  "size_pred n = (if n = 0 then SIZE_MAX else n - 1)"

section \<open>Slot allocator: IndirectionTable\<close>

text \<open>
  \<^verbatim>\<open>std::vector<std::optional<Index>> m_indirection\<close>, with \<open>None\<close> for
  \<^verbatim>\<open>Undirected\<close> (\<^verbatim>\<open>std::nullopt\<close>); \<^verbatim>\<open>std::vector<Index> m_freeList\<close>;
  \<^verbatim>\<open>Index m_denseSize\<close>.
\<close>

record IndirectionTable =
  m_indirection :: "nat option list"
  m_freeList :: "nat list"
  m_denseSize :: nat

definition IndirectionTable_new :: IndirectionTable where
  "IndirectionTable_new = \<lparr>m_indirection = [], m_freeList = [], m_denseSize = 0\<rparr>"

definition Next :: "IndirectionTable \<Rightarrow> error + (nat \<times> IndirectionTable)" where
  \<comment> \<open>\<^verbatim>\<open>m_indirection[index]\<close> is unchecked: it needs a slot of the table\<close>
  "Next t =
     (if m_freeList t \<noteq> [] then
        (let index = last (m_freeList t);
             t1 = t\<lparr>m_freeList := butlast (m_freeList t)\<rparr>
         in if index < length (m_indirection t1)
            then Inr (index,
                      t1\<lparr>m_indirection := (m_indirection t1)[index := Some (m_denseSize t1)],
                         m_denseSize := m_denseSize t1 + 1\<rparr>)
            else Inl InvalidAccess)
      else
        Inr (m_denseSize t,
             t\<lparr>m_indirection := m_indirection t @ [Some (m_denseSize t)],
               m_denseSize := m_denseSize t + 1\<rparr>))"

definition Erase :: "IndirectionTable \<Rightarrow> nat \<Rightarrow> error + IndirectionTable" where
  "Erase t index =
     (if index < length (m_indirection t)
      then Inr (t\<lparr>m_freeList := m_freeList t @ [index],
                  m_indirection := (m_indirection t)[index := None]\<rparr>)
      else Inl IndexOutOfBounds)"

definition Put :: "IndirectionTable \<Rightarrow> nat \<Rightarrow> nat \<Rightarrow> error + IndirectionTable" where
  "Put t sparseIndex denseIndex =
     (if sparseIndex < length (m_indirection t)
      then Inr (t\<lparr>m_indirection := (m_indirection t)[sparseIndex := Some denseIndex]\<rparr>)
      else Inl IndexOutOfBounds)"

definition Clear :: "IndirectionTable \<Rightarrow> IndirectionTable" where
  "Clear t = t\<lparr>m_denseSize := 0, m_freeList := [], m_indirection := []\<rparr>"

definition At :: "IndirectionTable \<Rightarrow> nat \<Rightarrow> error + nat option" where
  "At t sparseIndex =
     (if sparseIndex < length (m_indirection t)
      then Inr (m_indirection t ! sparseIndex)
      else Inl IndexOutOfBounds)"

definition DenseSize :: "IndirectionTable \<Rightarrow> nat" where
  "DenseSize t = m_denseSize t"

definition live_slots :: "IndirectionTable \<Rightarrow> nat" where
  \<comment> \<open>the number of slots whose indirection entry is not \<^verbatim>\<open>Undirected\<close>\<close>
  "live_slots t = length (filter (\<lambda>e. e \<noteq> None) (m_indirection t))"

section \<open>Paged sparse index: SparseSet and its buckets\<close>

text \<open>
  The repository holds the class twice; the copies differ in the names of the template
  parameters, in the allocation calls and in tests for null pointers, and the model
  follows the copy without those tests.

  The page size is the constant \<^verbatim>\<open>SPARSE_BUCKET_SIZE = 1 << SPARSE_BUCKET_SHIFT\<close> with
  \<^verbatim>\<open>SPARSE_BUCKET_SHIFT = 10\<close>. The functions below take the shift as their first
  argument \<open>sh\<close>, so that the same code can be run with a smaller page; the keyed
  packed storage instantiates it with the constant of the source.
\<close>

definition SPARSE_BUCKET_SHIFT :: nat where
  "SPARSE_BUCKET_SHIFT = 10"

definition SPARSE_BUCKET_SIZE :: "nat \<Rightarrow> nat" where
  "SPARSE_BUCKET_SIZE sh = 2 ^ sh"

definition GetBucketIndexAndOffset :: "nat \<Rightarrow> nat \<Rightarrow> nat \<times> nat" where
  \<comment> \<open>\<^verbatim>\<open>{ entity >> SPARSE_BUCKET_SHIFT, entity & (SPARSE_BUCKET_SIZE - 1) }\<close>\<close>
  "GetBucketIndexAndOffset sh entity =
     (entity div SPARSE_BUCKET_SIZE sh, entity mod SPARSE_BUCKET_SIZE sh)"

text \<open>
  A bucket owns the parallel arrays \<^verbatim>\<open>m_keys\<close> and \<^verbatim>\<open>m_values\<close> and the count
  \<^verbatim>\<open>m_size\<close>. Only the cells below \<^verbatim>\<open>m_size\<close> are ever read, so a bucket is the
  list of its pairs \<open>(m_keys[i], m_values[i])\<close> for \<open>i < m_size\<close>, and \<^verbatim>\<open>Size()\<close> is
  the length of that list. The keys stored in a bucket are offsets within the page.
\<close>

type_synonym Bucket = "(nat \<times> nat) list"

text \<open>
  \<^verbatim>\<open>std::lower_bound\<close> bisects: it keeps a position \<open>first\<close> and a count of cells still
  to search, looks at the cell in the middle, and goes on right of it when that cell is
  less than the key and left of it otherwise. On a range that is not sorted it still
  ends, at whatever position the comparisons lead it to.
  \<^verbatim>\<open>
  count = last - first;
  while (count > 0) {
     step = count / 2; it = first + step;
     if (*it < value) { first = ++it; count -= step + 1; }
     else count = step;
  }
  return first;
  \<close>
\<close>

function lower_bound_from :: "nat list \<Rightarrow> nat \<Rightarrow> nat \<Rightarrow> nat \<Rightarrow> nat" where
  "lower_bound_from ks key first count =
     (if count > 0
      then (if ks ! (first + count div 2) < key
            then lower_bound_from ks key (first + count div 2 + 1) (count - (count div 2 + 1))
            else lower_bound_from ks key first (count div 2))
      else first)"
  by pat_completeness auto
termination
  by (relation "measure (\<lambda>(ks, key, first, count). count)") auto

declare lower_bound_from.simps [simp del]

definition lower_bound :: "nat list \<Rightarrow> nat \<Rightarrow> nat" where
  "lower_bound ks key = lower_bound_from ks key 0 (length ks)"

definition Bucket_Contains :: "Bucket \<Rightarrow> nat \<Rightarrow> bool" where
  \<comment> \<open>\<^verbatim>\<open>std::binary_search\<close>: the lower bound is not the end and is not greater than
      the key\<close>
  "Bucket_Contains b key =
     (let i = lower_bound (map fst b) key in i \<noteq> length b \<and> \<not> key < fst (b ! i))"

definition Bucket_Value :: "Bucket \<Rightarrow> nat \<Rightarrow> nat option" where
  "Bucket_Value b key =
     (let i = lower_bound (map fst b) key
      in if i \<noteq> length b \<and> fst (b ! i) = key then Some (snd (b ! i)) else None)"

definition Bucket_Insert :: "nat \<Rightarrow> Bucket \<Rightarrow> nat \<Rightarrow> nat \<Rightarrow> bool \<times> Bucket" where
  "Bucket_Insert sh b key val =
     (if length b \<ge> SPARSE_BUCKET_SIZE sh then (False, b)
      else let index = lower_bound (map fst b) key
           in (True, take index b @ [(key, val)] @ drop index b))"

definition Bucket_Remove :: "Bucket \<Rightarrow> nat \<Rightarrow> Bucket" where
  "Bucket_Remove b key =
     (let index = lower_bound (map fst b) key
      in if index = length b \<or> fst (b ! index) \<noteq> key then b
         else take index b @ drop (index + 1) b)"

text \<open>
  \<^verbatim>\<open>Distribute\<close>, \<^verbatim>\<open>Merge\<close> and \<^verbatim>\<open>Rebalance\<close> update this bucket and the other
  one; the model returns both. Their first test, that the other bucket is not this
  bucket, never holds at a call site (the other bucket is always the one of the next
  page) and is not modelled.
\<close>

definition Distribute :: "Bucket \<Rightarrow> Bucket \<Rightarrow> Bucket \<times> Bucket" where
  "Distribute this other =
     (let mid = length this div 2 in (take mid this, drop mid this))"

definition Merge :: "Bucket \<Rightarrow> Bucket \<Rightarrow> Bucket" where
  "Merge this other = this @ other"

definition Rebalance :: "Bucket \<Rightarrow> Bucket \<Rightarrow> Bucket \<times> Bucket" where
  "Rebalance this other =
     (let totalSize = length this + length other;
          targetSize = totalSize div 2
      in if length this < targetSize
         then (let entitiesToMove = targetSize - length this
               in (this @ take entitiesToMove other, drop entitiesToMove other))
         else (take targetSize this, drop targetSize this @ other))"

text \<open>
  \<^verbatim>\<open>m_growFactor\<close> is a \<^verbatim>\<open>float\<close>, and its one use is the new capacity
  \<^verbatim>\<open>m_capacity * m_growFactor\<close>: the capacity is converted to \<^verbatim>\<open>float\<close>, the product
  is taken in \<^verbatim>\<open>float\<close> and converted back to \<^verbatim>\<open>size_t\<close>. The model keeps, for the
  grow factor, the function from the capacity to that new capacity, and assumes nothing
  about it. For the default factor 2 the function is \<open>grow_twice\<close>: the conversion
  rounds the capacity to 24 significant bits, ties to even, and doubling the result is
  exact. (A product of \<open>2 ^ 64\<close> or more has no \<^verbatim>\<open>size_t\<close> value; no allocation gets that
  far.)
\<close>

fun bit_length :: "nat \<Rightarrow> nat" where
  "bit_length n = (if n = 0 then 0 else Suc (bit_length (n div 2)))"

declare bit_length.simps [simp del]

definition float_of_size :: "nat \<Rightarrow> nat" where
  \<comment> \<open>the value of \<^verbatim>\<open>(float) c\<close>\<close>
  "float_of_size c =
     (if c < 2 ^ 24 then c
      else (let e = bit_length c - 24;
                q = c div 2 ^ e;
                r = c mod 2 ^ e;
                h = 2 ^ (e - 1)
            in (if h < r \<or> (r = h \<and> odd q) then q + 1 else q) * 2 ^ e))"

definition grow_twice :: "nat \<Rightarrow> nat" where
  \<comment> \<open>\<^verbatim>\<open>m_capacity * m_growFactor\<close> for the grow factor 2\<close>
  "grow_twice c = float_of_size c * 2"

text \<open>
  \<^verbatim>\<open>m_dense\<close> is the whole allocation, \<^verbatim>\<open>m_capacity\<close> cells long (a cell that was never
  written holds 0 in the model); \<^verbatim>\<open>m_sparse\<close> is the \<^verbatim>\<open>std::map\<close> from page index
  to bucket.
\<close>

record SparseSet =
  m_dense :: "nat list"
  m_sparse :: "nat \<rightharpoonup> Bucket"
  m_size :: nat
  m_growFactor :: "nat \<Rightarrow> nat"

definition Capacity :: "SparseSet \<Rightarrow> nat" where
  "Capacity s = length (m_dense s)"

definition SparseSet_new :: "nat \<Rightarrow> (nat \<Rightarrow> nat) \<Rightarrow> SparseSet" where
  "SparseSet_new initialCapacity growFactor =
     \<lparr>m_dense = replicate initialCapacity 0, m_sparse = Map.empty, m_size = 0,
      m_growFactor = growFactor\<rparr>"

definition GetOrCreateBucket :: "SparseSet \<Rightarrow> nat \<Rightarrow> Bucket \<times> SparseSet" where
  "GetOrCreateBucket s bucketIndex =
     (case m_sparse s bucketIndex of
        Some bucket \<Rightarrow> (bucket, s)
      | None \<Rightarrow> ([], s\<lparr>m_sparse := (m_sparse s)(bucketIndex \<mapsto> [])\<rparr>))"

definition Resize :: "SparseSet \<Rightarrow> nat \<Rightarrow> SparseSet" where
  "Resize s newCapacity =
     (if newCapacity < Capacity s then s
      else s\<lparr>m_dense := take (m_size s) (m_dense s) @ replicate (newCapacity - m_size s) 0\<rparr>)"

definition Insert_split :: "nat \<Rightarrow> SparseSet \<Rightarrow> nat \<Rightarrow> Bucket \<Rightarrow> Bucket \<times> SparseSet" where
  \<comment> \<open>the block \<^verbatim>\<open>if (bucket->Size() >= SPARSE_BUCKET_SIZE) { ... }\<close> of \<^verbatim>\<open>Insert\<close>,
      for the bucket of page \<open>bucketIndex\<close>; it yields that bucket and the set\<close>
  "Insert_split sh s bucketIndex bucket =
     (if length bucket \<ge> SPARSE_BUCKET_SIZE sh
      then (let (newBucket, s1) = GetOrCreateBucket s (bucketIndex + 1);
                (bucket', newBucket') = Distribute bucket newBucket
            in (bucket',
                s1\<lparr>m_sparse := (m_sparse s1)(bucketIndex \<mapsto> bucket',
                                               bucketIndex + 1 \<mapsto> newBucket')\<rparr>))
      else (bucket, s))"

definition Insert_grow :: "SparseSet \<Rightarrow> SparseSet" where
  \<comment> \<open>\<^verbatim>\<open>if (m_size == m_capacity) Resize(m_capacity * m_growFactor);\<close>\<close>
  "Insert_grow s =
     (if m_size s = Capacity s then Resize s (m_growFactor s (Capacity s)) else s)"

definition SparseSet_Insert :: "nat \<Rightarrow> SparseSet \<Rightarrow> nat \<Rightarrow> nat \<Rightarrow> error + (nat \<times> SparseSet)" where
  \<comment> \<open>the write \<^verbatim>\<open>m_dense[m_size] = entity\<close> is unchecked: it needs a cell of the
      allocation\<close>
  "SparseSet_Insert sh s entity val =
     (let (bucketIndex, offset) = GetBucketIndexAndOffset sh entity;
          (bucket, s1) = GetOrCreateBucket s bucketIndex
      in if Bucket_Contains bucket offset
         then Inr (case Bucket_Value bucket offset of Some v \<Rightarrow> v | None \<Rightarrow> SIZE_MAX, s1)
         else
           (let (bucket2, s2) = Insert_split sh s1 bucketIndex bucket;
                s3 = Insert_grow s2
            in if m_size s3 < Capacity s3
               then Inr (m_size s3,
                         s3\<lparr>m_dense := (m_dense s3)[m_size s3 := entity],
                            m_sparse := (m_sparse s3)
                               (bucketIndex \<mapsto> snd (Bucket_Insert sh bucket2 offset val)),
                            m_size := m_size s3 + 1\<rparr>)
               else Inl InvalidAccess))"

definition SparseSet_Get :: "nat \<Rightarrow> nat \<Rightarrow> SparseSet \<Rightarrow> nat \<Rightarrow> nat" where
  \<comment> \<open>The value that \<^verbatim>\<open>Get\<close> yields for a missing key is the parameter
      \<open>InvalidValue\<close>. The source returns \<^verbatim>\<open>InvalidValue\<close>, which it declares as the
      alias \<^verbatim>\<open>std::numeric_limits<_Value>::value\<close> and which so names no constant; for a
      page with a bucket it hands the empty optional of \<^verbatim>\<open>Bucket::Value\<close> back as a
      \<^verbatim>\<open>_Value\<close>. Both are the same sentinel here. For a present key the parameter
      plays no part.\<close>
  "SparseSet_Get InvalidValue sh s entity =
     (let (bucketIndex, offset) = GetBucketIndexAndOffset sh entity
      in case m_sparse s bucketIndex of
           Some bucket \<Rightarrow>
             (case Bucket_Value bucket offset of Some v \<Rightarrow> v | None \<Rightarrow> InvalidValue)
         | None \<Rightarrow> InvalidValue)"

definition SparseSet_Contains :: "nat \<Rightarrow> SparseSet \<Rightarrow> nat \<Rightarrow> bool" where
  "SparseSet_Contains sh s entity =
     (let (bucketIndex, offset) = GetBucketIndexAndOffset sh entity
      in case m_sparse s bucketIndex of
           Some bucket \<Rightarrow> Bucket_Contains bucket offset
         | None \<Rightarrow> False)"

definition Remove_swap :: "nat \<Rightarrow> SparseSet \<Rightarrow> nat \<Rightarrow> error + SparseSet" where
  \<comment> \<open>the block \<^verbatim>\<open>if (removedIndex != m_size - 1) { ... }\<close> of \<^verbatim>\<open>Remove\<close>;
      \<^verbatim>\<open>m_sparse[lastBucketIndex]\<close> yields a null pointer for a page without bucket, and
      the calls through it are invalid\<close>
  "Remove_swap sh s removedIndex =
     (if removedIndex \<noteq> size_pred (m_size s) then
        (if size_pred (m_size s) < Capacity s \<and> removedIndex < Capacity s then
           (let last = m_dense s ! size_pred (m_size s);
                s1 = s\<lparr>m_dense := (m_dense s)[removedIndex := last]\<rparr>;
                (lastBucketIndex, lastOffset) = GetBucketIndexAndOffset sh last
            in case m_sparse s1 lastBucketIndex of
                 None \<Rightarrow> Inl InvalidAccess
               | Some lastBucket \<Rightarrow>
                   Inr (s1\<lparr>m_sparse := (m_sparse s1)(lastBucketIndex \<mapsto>
                          snd (Bucket_Insert sh (Bucket_Remove lastBucket lastOffset)
                                 lastOffset removedIndex))\<rparr>))
         else Inl InvalidAccess)
      else Inr s)"

definition Remove_underfilled :: "nat \<Rightarrow> SparseSet \<Rightarrow> nat \<Rightarrow> Bucket \<Rightarrow> SparseSet" where
  \<comment> \<open>the block \<^verbatim>\<open>if (bucket->Size() < SPARSE_BUCKET_SIZE >> 1) { ... }\<close> of
      \<^verbatim>\<open>Remove\<close>, for the bucket of page \<open>bucketIndex\<close>\<close>
  "Remove_underfilled sh s bucketIndex bucket =
     (if length bucket < SPARSE_BUCKET_SIZE sh div 2 then
        (case m_sparse s (bucketIndex + 1) of
           Some nextBucket \<Rightarrow>
             (if length bucket + length nextBucket \<le> SPARSE_BUCKET_SIZE sh
              then s\<lparr>m_sparse := ((m_sparse s)(bucketIndex \<mapsto> Merge bucket nextBucket))
                                     (bucketIndex + 1 := None)\<rparr>
              else (let (bucket', nextBucket') = Rebalance bucket nextBucket
                    in s\<lparr>m_sparse := (m_sparse s)(bucketIndex \<mapsto> bucket',
                                                    bucketIndex + 1 \<mapsto> nextBucket')\<rparr>))
         | None \<Rightarrow> s)
      else s)"

definition SparseSet_Remove :: "nat \<Rightarrow> SparseSet \<Rightarrow> nat \<Rightarrow> error + SparseSet" where
  "SparseSet_Remove sh s entity =
     (let (bucketIndex, offset) = GetBucketIndexAndOffset sh entity;
          (bucket, s1) = GetOrCreateBucket s bucketIndex
      in case Bucket_Value bucket offset of
           None \<Rightarrow> Inr s1
         | Some removedIndex \<Rightarrow>
             (case Remove_swap sh s1 removedIndex of
                Inl e \<Rightarrow> Inl e
              | Inr s2 \<Rightarrow>
                  (case m_sparse s2 bucketIndex of
                     None \<Rightarrow> Inl InvalidAccess
                   | Some bucket2 \<Rightarrow>
                       (let bucket3 = Bucket_Remove bucket2 offset;
                            s3 = s2\<lparr>m_sparse := (m_sparse s2)(bucketIndex \<mapsto> bucket3)\<rparr>;
                            s4 = Remove_underfilled sh s3 bucketIndex bucket3
                        in Inr (s4\<lparr>m_size := size_pred (m_size s4)\<rparr>)))))"

definition SparseSet_Size :: "SparseSet \<Rightarrow> nat" where
  "SparseSet_Size s = m_size s"

text \<open>Sequences of calls, stopping at the first failure.\<close>

datatype sparse_op = Insert_op nat nat | Remove_op nat

fun SparseSet_run :: "nat \<Rightarrow> SparseSet \<Rightarrow> sparse_op list \<Rightarrow> error + SparseSet" where
  "SparseSet_run sh s [] = Inr s"
| "SparseSet_run sh s (Insert_op k v # ops) =
     (case SparseSet_Insert sh s k v of
        Inl e \<Rightarrow> Inl e
      | Inr (r, s') \<Rightarrow> SparseSet_run sh s' ops)"
| "SparseSet_run sh s (Remove_op k # ops) =
     (case SparseSet_Remove sh s k of
        Inl e \<Rightarrow> Inl e
      | Inr s' \<Rightarrow> SparseSet_run sh s' ops)"

section \<open>Packed record store: DenseArray\<close>

text \<open>
  \<^verbatim>\<open>m_components\<close> and \<^verbatim>\<open>m_indexToKey\<close> are vectors, \<^verbatim>\<open>m_keyToIndex\<close> is the
  \<^verbatim>\<open>std::unordered_map\<close> from key to position. The keyed packed storage instantiates
  the key type with \<^verbatim>\<open>size_t\<close>.
\<close>

record 'c DenseArray =
  m_components :: "'c list"
  m_keyToIndex :: "nat \<rightharpoonup> nat"
  m_indexToKey :: "nat list"

definition DenseArray_new :: "'c DenseArray" where
  "DenseArray_new = \<lparr>m_components = [], m_keyToIndex = Map.empty, m_indexToKey = []\<rparr>"

definition DenseArray_Size :: "'c DenseArray \<Rightarrow> nat" where
  "DenseArray_Size d = length (m_components d)"

definition DenseArray_Add :: "'c DenseArray \<Rightarrow> nat \<Rightarrow> 'c \<Rightarrow> error + 'c DenseArray" where
  "DenseArray_Add d key component =
     (if m_keyToIndex d key \<noteq> None then Inl KeyAlreadyExists
      else (let newIndex = length (m_components d)
            in Inr (d\<lparr>m_components := m_components d @ [component],
                      m_keyToIndex := (m_keyToIndex d)(key \<mapsto> newIndex),
                      m_indexToKey := m_indexToKey d @ [key]\<rparr>)))"

definition DenseArray_Remove :: "'c DenseArray \<Rightarrow> nat \<Rightarrow> error + 'c DenseArray" where
  \<comment> \<open>the vector accesses are unchecked in the source: \<^verbatim>\<open>back()\<close> and \<^verbatim>\<open>pop_back()\<close>
      need a non-empty vector, \<^verbatim>\<open>operator[]\<close> an index below the size\<close>
  "DenseArray_Remove d key =
     (case m_keyToIndex d key of
        None \<Rightarrow> Inl KeyDoesNotExist
      | Some indexToRemove \<Rightarrow>
          if m_components d = [] \<or> m_indexToKey d = [] then Inl InvalidAccess
          else if indexToRemove \<noteq> length (m_components d) - 1 then
            (if indexToRemove < length (m_components d) \<and> indexToRemove < length (m_indexToKey d)
             then (let lastKey = last (m_indexToKey d)
                   in Inr (d\<lparr>m_components :=
                               butlast ((m_components d)
                                 [indexToRemove := last (m_components d),
                                  length (m_components d) - 1 := m_components d ! indexToRemove]),
                             m_indexToKey := butlast ((m_indexToKey d)[indexToRemove := lastKey]),
                             m_keyToIndex :=
                               ((m_keyToIndex d)(lastKey \<mapsto> indexToRemove))(key := None)\<rparr>))
             else Inl InvalidAccess)
          else Inr (d\<lparr>m_components := butlast (m_components d),
                      m_indexToKey := butlast (m_indexToKey d),
                      m_keyToIndex := (m_keyToIndex d)(key := None)\<rparr>))"

definition DenseArray_Get :: "'c DenseArray \<Rightarrow> nat \<Rightarrow> error + 'c" where
  "DenseArray_Get d key =
     (case m_keyToIndex d key of
        None \<Rightarrow> Inl KeyDoesNotExist
      | Some i \<Rightarrow> if i < length (m_components d) then Inr (m_components d ! i)
                  else Inl InvalidAccess)"

definition DenseArray_GetByIndex :: "'c DenseArray \<Rightarrow> nat \<Rightarrow> error + 'c" where
  "DenseArray_GetByIndex d index =
     (if index < length (m_components d) then Inr (m_components d ! index)
      else Inl IndexOutOfRange)"

definition DenseArray_GetKeyAtIndex :: "'c DenseArray \<Rightarrow> nat \<Rightarrow> error + nat" where
  "DenseArray_GetKeyAtIndex d index =
     (if index < length (m_indexToKey d) then Inr (m_indexToKey d ! index)
      else Inl IndexOutOfRange)"

section \<open>Keyed packed storage: PackedArray\<close>

text \<open>
  \<^verbatim>\<open>SparseSet<Entity, size_t> m_sparseSet\<close> and \<^verbatim>\<open>DenseArray<size_t, Comp> m_denseArray\<close>,
  both default-constructed: the sparse set starts with a capacity of
  \<^verbatim>\<open>SPARSE_BUCKET_SIZE\<close> cells and grow factor 2. \<^verbatim>\<open>Entity\<close> is \<^verbatim>\<open>uint32_t\<close>.
\<close>

record 'c PackedArray =
  m_sparseSet :: SparseSet
  m_denseArray :: "'c DenseArray"

definition PackedArray_new :: "'c PackedArray" where
  "PackedArray_new =
     \<lparr>m_sparseSet = SparseSet_new (SPARSE_BUCKET_SIZE SPARSE_BUCKET_SHIFT) grow_twice,
      m_denseArray = DenseArray_new\<rparr>"

text \<open>
  \<^verbatim>\<open>Get\<close> returns a reference: to the function's \<^verbatim>\<open>static Comp dummy\<close>, one
  default-constructed record shared by all callers, or to a record of the store.
\<close>

datatype 'c lookup = Dummy | Stored 'c

definition PackedArray_Add :: "'c PackedArray \<Rightarrow> nat \<Rightarrow> 'c \<Rightarrow> error + 'c PackedArray" where
  "PackedArray_Add p entity component =
     (if SparseSet_Contains SPARSE_BUCKET_SHIFT (m_sparseSet p) entity then Inr p
      else (let index = DenseArray_Size (m_denseArray p)
            in case SparseSet_Insert SPARSE_BUCKET_SHIFT (m_sparseSet p) entity index of
                 Inl e \<Rightarrow> Inl e
               | Inr (r, s1) \<Rightarrow>
                   (case DenseArray_Add (m_denseArray p) index component of
                      Inl e \<Rightarrow> Inl e
                    | Inr d1 \<Rightarrow> Inr \<lparr>m_sparseSet = s1, m_denseArray = d1\<rparr>)))"

definition PackedArray_Remove :: "nat \<Rightarrow> 'c PackedArray \<Rightarrow> nat \<Rightarrow> error + 'c PackedArray" where
  \<comment> \<open>\<^verbatim>\<open>Entity lastEntity = m_denseArray.GetKeyAtIndex(...)\<close> narrows a \<^verbatim>\<open>size_t\<close> to
      32 bits\<close>
  "PackedArray_Remove InvalidValue p entity =
     (let index = SparseSet_Get InvalidValue SPARSE_BUCKET_SHIFT (m_sparseSet p) entity
      in if index = 0 then Inr p
         else
           (case DenseArray_Remove (m_denseArray p) index of
              Inl e \<Rightarrow> Inl e
            | Inr d1 \<Rightarrow>
                (case (if index < DenseArray_Size d1
                       then (case DenseArray_GetKeyAtIndex d1 (DenseArray_Size d1 - 1) of
                               Inl e \<Rightarrow> Inl e
                             | Inr lastKey \<Rightarrow>
                                 (let lastEntity = lastKey mod 2 ^ 32
                                  in case SparseSet_Remove SPARSE_BUCKET_SHIFT (m_sparseSet p)
                                            lastEntity of
                                       Inl e \<Rightarrow> Inl e
                                     | Inr s1 \<Rightarrow>
                                         (case SparseSet_Insert SPARSE_BUCKET_SHIFT s1
                                                 lastEntity index of
                                            Inl e \<Rightarrow> Inl e
                                          | Inr (r, s2) \<Rightarrow> Inr s2)))
                       else Inr (m_sparseSet p)) of
                   Inl e \<Rightarrow> Inl e
                 | Inr s3 \<Rightarrow>
                     (case SparseSet_Remove SPARSE_BUCKET_SHIFT s3 entity of
                        Inl e \<Rightarrow> Inl e
                      | Inr s4 \<Rightarrow> Inr \<lparr>m_sparseSet = s4, m_denseArray = d1\<rparr>))))"

definition PackedArray_Get :: "nat \<Rightarrow> 'c PackedArray \<Rightarrow> nat \<Rightarrow> error + 'c lookup" where
  "PackedArray_Get InvalidValue p entity =
     (let index = SparseSet_Get InvalidValue SPARSE_BUCKET_SHIFT (m_sparseSet p) entity
      in if index = 0 then Inr Dummy
         else (case DenseArray_GetByIndex (m_denseArray p) index of
                 Inl e \<Rightarrow> Inl e
               | Inr c \<Rightarrow> Inr (Stored c)))"

definition PackedArray_Size :: "'c PackedArray \<Rightarrow> nat" where
  "PackedArray_Size p = DenseArray_Size (m_denseArray p)"

text \<open>Sequences of calls on the storage, stopping at the first failure.\<close>

datatype 'c packed_op = Add_op nat 'c | Del_op nat

fun PackedArray_run ::
  "nat \<Rightarrow> 'c PackedArray \<Rightarrow> 'c packed_op list \<Rightarrow> error + 'c PackedArray" where
  "PackedArray_run iv p [] = Inr p"
| "PackedArray_run iv p (Add_op k c # ops) =
     (case PackedArray_Add p k c of
        Inl e \<Rightarrow> Inl e
      | Inr p' \<Rightarrow> PackedArray_run iv p' ops)"
| "PackedArray_run iv p (Del_op k # ops) =
     (case PackedArray_Remove iv p k of
        Inl e \<Rightarrow> Inl e
      | Inr p' \<Rightarrow> PackedArray_run iv p' ops)"

section \<open>Predicates and example states used in the statements\<close>

definition Bucket_sorted :: "Bucket \<Rightarrow> bool" where
  \<comment> \<open>the entries are in increasing order of offset\<close>
  "Bucket_sorted b = sorted_wrt (<) (map fst b)"

text \<open>
  Sparse sets with pages of 4 keys (\<open>sh = 2\<close>): a full bucket that holds entries of two
  pages, the set after an insert into it, two neighbouring buckets, and the set after a
  removal from the first of them. The lemmas \<open>merged_state_reached\<close>,
  \<open>Insert_3_merged_state\<close>, \<open>two_pages_state_reached\<close> and
  \<open>Remove_1_two_pages_state\<close> give the calls that lead to them from the empty set.
\<close>

definition merged_state :: SparseSet where
  "merged_state =
     \<lparr>m_dense = [0, 6, 4, 5, 6, 0, 0, 0],
      m_sparse = [0 \<mapsto> [(0, 0), (0, 2), (1, 3), (2, 1)]],
      m_size = 4, m_growFactor = grow_twice\<rparr>"

definition split_state :: SparseSet where
  "split_state =
     \<lparr>m_dense = [0, 6, 4, 5, 3, 0, 0, 0],
      m_sparse = [0 \<mapsto> [(0, 0), (0, 2), (3, 4)], 1 \<mapsto> [(1, 3), (2, 1)]],
      m_size = 5, m_growFactor = grow_twice\<rparr>"

definition two_pages_state :: SparseSet where
  "two_pages_state =
     \<lparr>m_dense = [0, 1, 4, 5, 6, 7, 0, 0],
      m_sparse = [0 \<mapsto> [(0, 0), (1, 1)], 1 \<mapsto> [(0, 2), (1, 3), (2, 4), (3, 5)]],
      m_size = 6, m_growFactor = grow_twice\<rparr>"


text \<open>The keyed packed storage after \<^verbatim>\<open>Add(7, "x")\<close> on a new storage.\<close>

definition storage_7 :: "string PackedArray" where
  "storage_7 =
     \<lparr>m_sparseSet = \<lparr>m_dense = (replicate 1024 0)[0 := 7], m_sparse = [0 \<mapsto> [(7, 0)]],
                      m_size = 1, m_growFactor = grow_twice\<rparr>,
      m_denseArray = \<lparr>m_components = [''x''], m_keyToIndex = [0 \<mapsto> 0],
                       m_indexToKey = [0]\<rparr>\<rparr>"

section \<open>Unfolding the model\<close>

lemmas sparse_defs =
  SparseSet_new_def SparseSet_Insert_def SparseSet_Remove_def SparseSet_Get_def
  SparseSet_Contains_def GetBucketIndexAndOffset_def GetOrCreateBucket_def
  SPARSE_BUCKET_SIZE_def Bucket_Contains_def Bucket_Value_def Bucket_Insert_def
  Bucket_Remove_def lower_bound_def Distribute_def Merge_def Rebalance_def Remove_swap_def
  Remove_underfilled_def Capacity_def Resize_def size_pred_def Insert_split_def
  Insert_grow_def lower_bound_from.simps grow_twice_def float_of_size_def Let_def

lemmas packed_defs =
  PackedArray_new_def PackedArray_Add_def PackedArray_Remove_def PackedArray_Get_def
  PackedArray_Size_def DenseArray_new_def DenseArray_Size_def DenseArray_Add_def
  DenseArray_Remove_def DenseArray_GetByIndex_def DenseArray_GetKeyAtIndex_def
  SPARSE_BUCKET_SHIFT_def

lemma replicate_4: "replicate 4 x = [x, x, x, x]"
  by (simp add: numeral_eq_Suc)

section \<open>Slot allocator\<close>

text \<open>
  What \<^verbatim>\<open>Erase\<close> and \<^verbatim>\<open>Next\<close> do get right: an erased slot is \<^verbatim>\<open>Undirected\<close> and
  is the top of the free list, and \<^verbatim>\<open>Next\<close> on a table with a non-empty free list
  hands out the top of that list without adding a slot.
\<close>

lemma Erase_marks_and_pushes:
  assumes "Erase t i = Inr t'"
  shows "m_indirection t' ! i = None \<and> m_freeList t' = m_freeList t @ [i]
         \<and> m_denseSize t' = m_denseSize t"
  using assms by (auto simp: Erase_def split: if_splits)

lemma Next_reuses_free_slot:
  assumes "m_freeList t \<noteq> []" and "Next t = Inr (i, t')"
  shows "i = last (m_freeList t) \<and> m_freeList t' = butlast (m_freeList t)
         \<and> length (m_indirection t') = length (m_indirection t)
         \<and> m_indirection t' ! i = Some (m_denseSize t)"
  using assms by (auto simp: Next_def Let_def split: if_splits)

text \<open>
  \<^verbatim>\<open>Next\<close> returns \<^verbatim>\<open>m_denseSize\<close> as the identifier of a slot it appends, which is
  the index of that slot only while \<^verbatim>\<open>m_denseSize\<close> is the number of slots. After two
  allocations, one erase and one reuse the next fresh slot is the third one, at index 2,
  and the identifier returned for it is 3.
\<close>

lemma Next_after_reuse_returns_unallocated_slot:
  "Next \<lparr>m_indirection = [Some 2, Some 1], m_freeList = [], m_denseSize = 3\<rparr>
     = Inr (3, \<lparr>m_indirection = [Some 2, Some 1, Some 3], m_freeList = [], m_denseSize = 4\<rparr>)
   \<and> At \<lparr>m_indirection = [Some 2, Some 1, Some 3], m_freeList = [], m_denseSize = 4\<rparr> 3
     = Inl IndexOutOfBounds"
  by (simp add: Next_def At_def)

text \<open>
  C4. The claimed invariant "\<^verbatim>\<open>denseSize\<close> equals the number of slots that are not
  \<^verbatim>\<open>Undirected\<close>" is evaluated on a fresh table after \<^verbatim>\<open>Next()\<close> and
  \<^verbatim>\<open>Erase(0)\<close>: the slot is marked \<^verbatim>\<open>Undirected\<close> and sits on the free list, no
  slot is live, and \<^verbatim>\<open>DenseSize()\<close> is still 1, because \<^verbatim>\<open>Erase\<close> never
  decrements \<^verbatim>\<open>m_denseSize\<close>.
\<close>

theorem C4_Erase_keeps_denseSize:
  "Next IndirectionTable_new
     = Inr (0, \<lparr>m_indirection = [Some 0], m_freeList = [], m_denseSize = 1\<rparr>)
   \<and> Erase \<lparr>m_indirection = [Some 0], m_freeList = [], m_denseSize = 1\<rparr> 0
     = Inr \<lparr>m_indirection = [None], m_freeList = [0], m_denseSize = 1\<rparr>
   \<and> DenseSize \<lparr>m_indirection = [None], m_freeList = [0], m_denseSize = 1\<rparr> = 1
   \<and> live_slots \<lparr>m_indirection = [None], m_freeList = [0], m_denseSize = 1\<rparr> = 0"
  by (simp add: Next_def Erase_def IndirectionTable_new_def DenseSize_def live_slots_def)

section \<open>Paged sparse index: lookup and insert\<close>

text \<open>
  Whatever the order of the range, the search ends within it, and at a cell that is not
  less than the key unless it ends at the end: the right end of the part still to search
  is always the end of the range or a cell that was compared and found not less.
\<close>

lemma lower_bound_from_0: "lower_bound_from ks key first 0 = first"
  by (simp add: lower_bound_from.simps)

lemma lower_bound_from_stops:
  assumes "first + count \<le> length ks"
      and "first + count < length ks \<longrightarrow> \<not> ks ! (first + count) < key"
  shows "lower_bound_from ks key first count \<le> length ks
         \<and> (lower_bound_from ks key first count < length ks
              \<longrightarrow> \<not> ks ! lower_bound_from ks key first count < key)"
  using assms
proof (induction ks key first count rule: lower_bound_from.induct)
  case (1 ks key first count)
  show ?case
  proof (cases "count > 0")
    case False
    with "1.prems" show ?thesis by (simp add: lower_bound_from_0)
  next
    case pos: True
    show ?thesis
    proof (cases "ks ! (first + count div 2) < key")
      case True
      have e: "first + count div 2 + 1 + (count - (count div 2 + 1)) = first + count"
        using pos by simp
      from "1.IH"(1) [OF pos True] "1.prems" e pos True show ?thesis
        by (simp add: lower_bound_from.simps [of ks key first count])
    next
      case False
      have "first + count div 2 < length ks" using pos "1.prems"(1) by simp
      with "1.IH"(2) [OF pos False] False pos show ?thesis
        by (simp add: lower_bound_from.simps [of ks key first count])
    qed
  qed
qed

lemma lower_bound_le: "lower_bound ks key \<le> length ks"
  using lower_bound_from_stops [of 0 "length ks" ks key] by (simp add: lower_bound_def)

lemma lower_bound_not_less:
  "lower_bound ks key < length ks \<Longrightarrow> \<not> ks ! lower_bound ks key < key"
  using lower_bound_from_stops [of 0 "length ks" ks key] by (simp add: lower_bound_def)

lemma Bucket_Contains_empty: "\<not> Bucket_Contains [] off"
  by (simp add: Bucket_Contains_def lower_bound_def lower_bound_from_0)

lemma Bucket_Value_empty: "Bucket_Value [] off = None"
  by (simp add: Bucket_Value_def lower_bound_def lower_bound_from_0)

text \<open>\<^verbatim>\<open>Bucket::Contains\<close> and \<^verbatim>\<open>Bucket::Value\<close> agree on every bucket.\<close>

lemma Bucket_Contains_iff_Value:
  "Bucket_Contains b key \<longleftrightarrow> Bucket_Value b key \<noteq> None"
proof -
  let ?i = "lower_bound (map fst b) key"
  show ?thesis
  proof (cases "?i = length b")
    case True
    then show ?thesis by (simp add: Bucket_Contains_def Bucket_Value_def)
  next
    case False
    with lower_bound_le [of "map fst b" key] have lt: "?i < length (map fst b)" by simp
    from lower_bound_not_less [OF lt] lt have "\<not> fst (b ! ?i) < key" by simp
    then have "(\<not> key < fst (b ! ?i)) = (fst (b ! ?i) = key)" by auto
    with False show ?thesis by (simp add: Bucket_Contains_def Bucket_Value_def Let_def)
  qed
qed

lemma absent_Get:
  "\<not> SparseSet_Contains sh s k \<Longrightarrow> SparseSet_Get iv sh s k = iv"
  by (auto simp: SparseSet_Contains_def SparseSet_Get_def Bucket_Contains_iff_Value
      split: prod.splits option.splits)


text \<open>
  The witness: key 5 with value 7 in a set with pages of 4 keys, as left by
  \<^verbatim>\<open>Insert(5, 7)\<close> on an empty set of capacity 4; a second \<^verbatim>\<open>Insert(5, 9)\<close>.
\<close>

lemma Insert_5_7:
  "SparseSet_Insert 2 (SparseSet_new 4 grow_twice) 5 7
     = Inr (0, \<lparr>m_dense = [5, 0, 0, 0], m_sparse = [1 \<mapsto> [(1, 7)]], m_size = 1,
                m_growFactor = grow_twice\<rparr>)"
  by (simp add: sparse_defs replicate_4)


subsection \<open>Insert into a full bucket\<close>

lemma length_Bucket_Insert:
  "length b \<le> SPARSE_BUCKET_SIZE sh \<Longrightarrow>
   length (snd (Bucket_Insert sh b key val)) \<le> SPARSE_BUCKET_SIZE sh"
  using lower_bound_le [of "map fst b" key]
  by (auto simp: Bucket_Insert_def Let_def)

lemma GetOrCreateBucket_sparse:
  "GetOrCreateBucket s j = (nb, s1) \<Longrightarrow> m_sparse s1 = (m_sparse s)(j \<mapsto> nb)"
  by (auto simp: GetOrCreateBucket_def split: option.splits)

lemma m_sparse_Insert_grow: "m_sparse (Insert_grow s) = m_sparse s"
  by (simp add: Insert_grow_def Resize_def)

lemma Insert_split_full:
  assumes "SPARSE_BUCKET_SIZE sh \<le> length b" and "Insert_split sh s bi b = (b2, s2)"
  shows "b2 = take (length b div 2) b
         \<and> m_sparse s2 = (m_sparse s)(bi \<mapsto> take (length b div 2) b,
                                      bi + 1 \<mapsto> drop (length b div 2) b)"
proof -
  obtain nb s1 where n: "GetOrCreateBucket s (bi + 1) = (nb, s1)"
    by (cases "GetOrCreateBucket s (bi + 1)")
  from assms n GetOrCreateBucket_sparse [OF n] show ?thesis
    by (auto simp: Insert_split_def Distribute_def Let_def)
qed

lemma Insert_full_bucket:
  assumes g: "GetBucketIndexAndOffset sh k = (bi, off)"
      and b: "m_sparse s bi = Some b"
      and full: "SPARSE_BUCKET_SIZE sh \<le> length b"
      and absent: "\<not> Bucket_Contains b off"
      and ins: "SparseSet_Insert sh s k v = Inr (r, s')"
  shows "m_sparse s' =
           (m_sparse s)(bi \<mapsto> take (length b div 2) b,
                        bi + 1 \<mapsto> drop (length b div 2) b,
                        bi \<mapsto> snd (Bucket_Insert sh (take (length b div 2) b) off v))"
proof -
  obtain b2 s2 where sp: "Insert_split sh s bi b = (b2, s2)"
    by (cases "Insert_split sh s bi b")
  note f = Insert_split_full [OF full sp]
  from b have e: "GetOrCreateBucket s bi = (b, s)" by (simp add: GetOrCreateBucket_def)
  from ins g e absent sp
  have "m_sparse s' = (m_sparse (Insert_grow s2))(bi \<mapsto> snd (Bucket_Insert sh b2 off v))"
    by (auto simp: SparseSet_Insert_def Let_def split: if_splits)
  with f show ?thesis by (simp add: m_sparse_Insert_grow)
qed

lemma five_inserts_capacity_4:
  "(case SparseSet_run 2 (SparseSet_new 4 grow_twice)
           [Insert_op 0 0, Insert_op 1 1, Insert_op 2 2, Insert_op 3 3, Insert_op 4 4] of
      Inl e \<Rightarrow> False
    | Inr s0 \<Rightarrow>
        m_sparse s0 0 = Some [(0, 0), (1, 1), (2, 2), (3, 3)]
        \<and> m_sparse s0 1 = Some [(0, 4)])"
  by (simp add: sparse_defs replicate_4)

text \<open>
  C5, as amended. When the bucket of the key's page is full and the lookup does not find
  the key's offset in it, \<^verbatim>\<open>Insert\<close> moves the upper half of that bucket (the entries
  from position \<open>size div 2\<close> on) into the bucket of the next page, inserts the new entry
  into the lower half that stays, leaves every other bucket alone, and keeps every bucket
  within the capacity if every bucket was within it before. With a capacity of 4,
  inserting the keys 0 to 4 in order splits nothing: bucket 0 holds the keys 0 to 3 and
  key 4 is the only entry of bucket 1.
\<close>

theorem C5_Insert_into_full_bucket:
  assumes g: "GetBucketIndexAndOffset sh k = (bi, off)"
      and b: "m_sparse s bi = Some b"
      and full: "SPARSE_BUCKET_SIZE sh \<le> length b"
      and absent: "\<not> Bucket_Contains b off"
      and ins: "SparseSet_Insert sh s k v = Inr (r, s')"
  shows "m_sparse s' (bi + 1) = Some (drop (length b div 2) b)
       \<and> m_sparse s' bi = Some (snd (Bucket_Insert sh (take (length b div 2) b) off v))
       \<and> (\<forall>j. j \<noteq> bi \<and> j \<noteq> bi + 1 \<longrightarrow> m_sparse s' j = m_sparse s j)
       \<and> ((\<forall>j c. m_sparse s j = Some c \<longrightarrow> length c \<le> SPARSE_BUCKET_SIZE sh)
            \<longrightarrow> (\<forall>j c. m_sparse s' j = Some c \<longrightarrow> length c \<le> SPARSE_BUCKET_SIZE sh))
       \<and> (case SparseSet_run 2 (SparseSet_new 4 grow_twice)
                  [Insert_op 0 0, Insert_op 1 1, Insert_op 2 2, Insert_op 3 3,
                   Insert_op 4 4] of
             Inl e \<Rightarrow> False
           | Inr s0 \<Rightarrow>
               m_sparse s0 0 = Some [(0, 0), (1, 1), (2, 2), (3, 3)]
               \<and> m_sparse s0 1 = Some [(0, 4)])"
proof -
  note m = Insert_full_bucket [OF assms]
  have 1: "m_sparse s' (bi + 1) = Some (drop (length b div 2) b)"
    by (simp add: m)
  have 2: "m_sparse s' bi = Some (snd (Bucket_Insert sh (take (length b div 2) b) off v))"
    by (simp add: m)
  have 3: "\<forall>j. j \<noteq> bi \<and> j \<noteq> bi + 1 \<longrightarrow> m_sparse s' j = m_sparse s j"
    by (simp add: m)
  have 4: "(\<forall>j c. m_sparse s j = Some c \<longrightarrow> length c \<le> SPARSE_BUCKET_SIZE sh)
            \<longrightarrow> (\<forall>j c. m_sparse s' j = Some c \<longrightarrow> length c \<le> SPARSE_BUCKET_SIZE sh)"
  proof (intro impI allI)
    fix j c
    assume cap: "\<forall>j c. m_sparse s j = Some c \<longrightarrow> length c \<le> SPARSE_BUCKET_SIZE sh"
       and c: "m_sparse s' j = Some c"
    from cap b have lb: "length b \<le> SPARSE_BUCKET_SIZE sh" by blast
    then have lt: "length (take (length b div 2) b) \<le> SPARSE_BUCKET_SIZE sh" by simp
    consider "j = bi" | "j = bi + 1" | "j \<noteq> bi" "j \<noteq> bi + 1" by blast
    then show "length c \<le> SPARSE_BUCKET_SIZE sh"
    proof cases
      case 1
      with c 2 have "c = snd (Bucket_Insert sh (take (length b div 2) b) off v)" by simp
      with length_Bucket_Insert [OF lt] show ?thesis by simp
    next
      case 2
      with c 1 have "c = drop (length b div 2) b" by simp
      with lb show ?thesis by simp
    next
      case 3
      with c m have "m_sparse s j = Some c" by simp
      with cap show ?thesis by blast
    qed
  qed
  from 1 2 3 4 five_inserts_capacity_4 show ?thesis by blast
qed

text \<open>
  The witness: \<open>merged_state\<close>, whose bucket 0 is full with the offsets 0, 0, 1, 2, and
  \<^verbatim>\<open>Insert(3, 4)\<close>. The offsets 1 and 2 move to bucket 1, offset 3 joins the two
  entries that stay.
\<close>

lemma merged_state_reached:
  "SparseSet_run 2 (SparseSet_new 4 grow_twice)
     [Insert_op 0 0, Insert_op 1 1, Insert_op 4 2, Insert_op 5 3, Insert_op 6 4, Remove_op 1]
   = Inr merged_state"
  by (simp add: sparse_defs replicate_4 merged_state_def fun_eq_iff)

lemma Insert_3_merged_state: "SparseSet_Insert 2 merged_state 3 4 = Inr (4, split_state)"
  by (simp add: sparse_defs merged_state_def split_state_def fun_eq_iff)

theorem C5_Insert_into_full_bucket_witness:
  "GetBucketIndexAndOffset 2 3 = (0, 3)
   \<and> m_sparse merged_state 0 = Some [(0, 0), (0, 2), (1, 3), (2, 1)]
   \<and> SPARSE_BUCKET_SIZE 2 \<le> length [(0 :: nat, 0 :: nat), (0, 2), (1, 3), (2, 1)]
   \<and> \<not> Bucket_Contains [(0, 0), (0, 2), (1, 3), (2, 1)] 3
   \<and> SparseSet_Insert 2 merged_state 3 4 = Inr (4, split_state)
   \<and> m_sparse split_state 1 = Some [(1, 3), (2, 1)]
   \<and> m_sparse split_state 0 = Some [(0, 0), (0, 2), (3, 4)]
   \<and> m_sparse split_state 2 = m_sparse merged_state 2"
proof -
  have g: "GetBucketIndexAndOffset 2 3 = (0, 3)"
    by (simp add: GetBucketIndexAndOffset_def SPARSE_BUCKET_SIZE_def)
  have b: "m_sparse merged_state 0 = Some [(0, 0), (0, 2), (1, 3), (2, 1)]"
    by (simp add: merged_state_def)
  have f: "SPARSE_BUCKET_SIZE 2 \<le> length [(0 :: nat, 0 :: nat), (0, 2), (1, 3), (2, 1)]"
    by (simp add: SPARSE_BUCKET_SIZE_def)
  have a: "\<not> Bucket_Contains [(0, 0), (0, 2), (1, 3), (2, 1)] 3"
    by (simp add: Bucket_Contains_def lower_bound_def lower_bound_from.simps)
  note i = Insert_3_merged_state
  from C5_Insert_into_full_bucket [OF g b f a i]
  have "m_sparse split_state (0 + 1)
          = Some (drop (length [(0 :: nat, 0 :: nat), (0, 2), (1, 3), (2, 1)] div 2)
                    [(0, 0), (0, 2), (1, 3), (2, 1)])
      \<and> m_sparse split_state 0
          = Some (snd (Bucket_Insert 2
                    (take (length [(0 :: nat, 0 :: nat), (0, 2), (1, 3), (2, 1)] div 2)
                       [(0, 0), (0, 2), (1, 3), (2, 1)]) 3 4))
      \<and> m_sparse split_state 2 = m_sparse merged_state 2"
    by simp
  then have "m_sparse split_state 1 = Some [(1, 3), (2, 1)]
      \<and> m_sparse split_state 0 = Some [(0, 0), (0, 2), (3, 4)]
      \<and> m_sparse split_state 2 = m_sparse merged_state 2"
    by (simp add: Bucket_Insert_def lower_bound_def lower_bound_from.simps SPARSE_BUCKET_SIZE_def)
  with g b f a i show ?thesis by blast
qed

text \<open>
  The claim as stated fails on its own scenario: after the fifth insert bucket 0 still
  holds all of the keys 0 to 3, not the keys 0 and 1, and bucket 1 holds key 4 alone, not
  the keys 2 and 3.
\<close>

theorem C5_no_split_counterexample:
  "(case SparseSet_run 2 (SparseSet_new 4 grow_twice)
           [Insert_op 0 0, Insert_op 1 1, Insert_op 2 2, Insert_op 3 3, Insert_op 4 4] of
      Inl e \<Rightarrow> False
    | Inr s \<Rightarrow>
        m_sparse s 0 = Some [(0, 0), (1, 1), (2, 2), (3, 3)]
        \<and> m_sparse s 1 = Some [(0, 4)]
        \<and> m_sparse s 0 \<noteq> Some [(0, 0), (1, 1)]
        \<and> m_sparse s 1 \<noteq> Some [(2, 2), (3, 3)])"
  by (simp add: sparse_defs replicate_4)

section \<open>Paged sparse index: remove\<close>

text \<open>
  \<^verbatim>\<open>Remove\<close> of a key that is not present returns without error. It leaves the dense
  array, the size, every bucket that exists and so every lookup as they were; the bucket
  of the key's page exists afterwards, empty if the page had none.
\<close>

lemma Remove_absent_key:
  assumes a: "\<not> SparseSet_Contains sh s k"
      and g: "GetBucketIndexAndOffset sh k = (bi, off)"
  shows "\<exists>s'. SparseSet_Remove sh s k = Inr s'
              \<and> m_dense s' = m_dense s \<and> m_size s' = m_size s
              \<and> (\<forall>j. j \<noteq> bi \<longrightarrow> m_sparse s' j = m_sparse s j)
              \<and> m_sparse s' bi = Some (case m_sparse s bi of None \<Rightarrow> [] | Some b \<Rightarrow> b)
              \<and> (\<forall>k'. SparseSet_Contains sh s' k' = SparseSet_Contains sh s k')
              \<and> (\<forall>k'. SparseSet_Get iv sh s' k' = SparseSet_Get iv sh s k')"
proof (cases "m_sparse s bi")
  case None
  let ?s' = "s\<lparr>m_sparse := (m_sparse s)(bi \<mapsto> [])\<rparr>"
  from None g have r: "SparseSet_Remove sh s k = Inr ?s'"
    by (simp add: SparseSet_Remove_def GetOrCreateBucket_def Bucket_Value_empty)
  have c: "\<forall>k'. SparseSet_Contains sh ?s' k' = SparseSet_Contains sh s k'"
    using None
    by (auto simp: SparseSet_Contains_def Bucket_Contains_empty split: prod.splits option.splits)
  have v: "\<forall>k'. SparseSet_Get iv sh ?s' k' = SparseSet_Get iv sh s k'"
    using None
    by (auto simp: SparseSet_Get_def Bucket_Value_empty split: prod.splits option.splits)
  from r c v None show ?thesis by simp
next
  case (Some b)
  with a g have "Bucket_Value b off = None"
    by (simp add: SparseSet_Contains_def Bucket_Contains_iff_Value)
  with Some g have "SparseSet_Remove sh s k = Inr s"
    by (simp add: SparseSet_Remove_def GetOrCreateBucket_def)
  with Some show ?thesis by simp
qed

text \<open>
  C7. \<^verbatim>\<open>Remove\<close> of an absent key is claimed to leave the set of existing buckets as it
  was. On an empty set, whose page 0 has no bucket, \<^verbatim>\<open>Remove(5)\<close> returns without error
  and without touching the size, and page 0 has an empty bucket afterwards: the lookup
  goes through \<^verbatim>\<open>GetOrCreateBucket\<close>.
\<close>

theorem C7_Remove_absent_key_creates_bucket:
  "\<not> SparseSet_Contains 10 (SparseSet_new 1024 grow_twice) 5
   \<and> m_sparse (SparseSet_new 1024 grow_twice) 0 = None
   \<and> (case SparseSet_Remove 10 (SparseSet_new 1024 grow_twice) 5 of
         Inl e \<Rightarrow> False
       | Inr s' \<Rightarrow> m_sparse s' 0 = Some [] \<and> m_size s' = 0
                   \<and> \<not> SparseSet_Contains 10 s' 5)"
  by (simp add: sparse_defs)

subsection \<open>Occupancy after a removal\<close>




text \<open>
  The witness: \<open>two_pages_state\<close>, with the keys 0 and 1 in bucket 0 and the keys 4 to 7
  in bucket 1, and \<^verbatim>\<open>Remove(1)\<close>. Bucket 0 drops to one entry, the two buckets hold five
  entries, more than one bucket takes, and the rebalance leaves two in bucket 0.
\<close>

lemma two_pages_state_reached:
  "SparseSet_run 2 (SparseSet_new 4 grow_twice)
     [Insert_op 0 0, Insert_op 1 1, Insert_op 4 2, Insert_op 5 3, Insert_op 6 4, Insert_op 7 5]
   = Inr two_pages_state"
  by (simp add: sparse_defs replicate_4 two_pages_state_def fun_eq_iff)




subsection \<open>Order of the entries\<close>

text \<open>
  On a sorted range the bisection finds what a scan from the left finds: the first cell
  that is not less than the key.
\<close>

lemma lower_bound_from_below:
  assumes "sorted ks" and "first + count \<le> length ks"
      and "\<forall>j < first. ks ! j < key"
  shows "\<forall>j < lower_bound_from ks key first count. ks ! j < key"
  using assms
proof (induction ks key first count rule: lower_bound_from.induct)
  case (1 ks key first count)
  show ?case
  proof (cases "count > 0")
    case False
    with "1.prems" show ?thesis by (simp add: lower_bound_from_0)
  next
    case pos: True
    show ?thesis
    proof (cases "ks ! (first + count div 2) < key")
      case True
      have m: "first + count div 2 < length ks" using pos "1.prems"(2) by simp
      have "\<forall>j < first + count div 2 + 1. ks ! j < key"
      proof (intro allI impI)
        fix j assume "j < first + count div 2 + 1"
        then have "j \<le> first + count div 2" by simp
        with "1.prems"(1) m have "ks ! j \<le> ks ! (first + count div 2)"
          by (simp add: sorted_nth_mono)
        with True show "ks ! j < key" by simp
      qed
      moreover have "first + count div 2 + 1 + (count - (count div 2 + 1)) \<le> length ks"
        using pos "1.prems"(2) by simp
      ultimately show ?thesis
        using "1.IH"(1) [OF pos True "1.prems"(1)] pos True
        by (simp add: lower_bound_from.simps [of ks key first count])
    next
      case False
      have "first + count div 2 \<le> length ks" using "1.prems"(2) by simp
      with "1.IH"(2) [OF pos False "1.prems"(1) _ "1.prems"(3)] pos False show ?thesis
        by (simp add: lower_bound_from.simps [of ks key first count])
    qed
  qed
qed

lemma lower_bound_sorted:
  assumes "sorted ks"
  shows "lower_bound ks key = length (takeWhile (\<lambda>x. x < key) ks)"
proof -
  let ?r = "lower_bound ks key"
  have b: "\<forall>j < ?r. ks ! j < key"
    using lower_bound_from_below [OF assms, of 0 "length ks" key] by (simp add: lower_bound_def)
  show ?thesis
  proof (cases "?r < length ks")
    case True
    from lower_bound_not_less [OF True] b True
    have "takeWhile (\<lambda>x. x < key) ks = take ?r ks"
      by (intro takeWhile_eq_take_P_nth) auto
    with True show ?thesis by simp
  next
    case False
    with lower_bound_le [of ks key] have e: "?r = length ks" by simp
    with b have "\<forall>x \<in> set ks. x < key" by (auto simp: in_set_conv_nth)
    then have t: "takeWhile (\<lambda>x. x < key) ks = ks" by simp
    show ?thesis by (simp only: e t)
  qed
qed

text \<open>
  \<^verbatim>\<open>Bucket::Insert\<close> of an offset the bucket does not hold, \<^verbatim>\<open>Bucket::Remove\<close> and
  \<^verbatim>\<open>Distribute\<close> keep the entries in increasing order of offset.
\<close>

lemma map_fst_Bucket_Insert:
  "sorted (map fst b) \<Longrightarrow> length b < SPARSE_BUCKET_SIZE sh \<Longrightarrow>
   map fst (snd (Bucket_Insert sh b key val))
     = takeWhile (\<lambda>x. x < key) (map fst b) @ key # dropWhile (\<lambda>x. x < key) (map fst b)"
  by (simp add: Bucket_Insert_def lower_bound_sorted Let_def take_map [symmetric]
      drop_map [symmetric] takeWhile_eq_take [symmetric] dropWhile_eq_drop [symmetric])

lemma sorted_Bucket_Insert:
  assumes s: "Bucket_sorted b" and a: "\<not> Bucket_Contains b key"
  shows "Bucket_sorted (snd (Bucket_Insert sh b key val))"
proof (cases "length b < SPARSE_BUCKET_SIZE sh")
  case False
  with s show ?thesis by (simp add: Bucket_Insert_def)
next
  case True
  let ?P = "\<lambda>x. x < key"
  let ?ks = "map fst b"
  let ?xs = "takeWhile ?P ?ks"
  let ?ys = "dropWhile ?P ?ks"
  from s have sd: "sorted ?ks"
    by (simp add: Bucket_sorted_def strict_sorted_imp_sorted)
  from s have "sorted_wrt (<) (?xs @ ?ys)" by (simp add: Bucket_sorted_def)
  then have sx: "sorted_wrt (<) ?xs" and sy: "sorted_wrt (<) ?ys"
    by (simp_all only: sorted_wrt_append)
  have lo: "\<forall>x \<in> set ?xs. x < key" by (auto dest: set_takeWhileD)
  have hi: "\<forall>y \<in> set ?ys. key < y"
  proof (cases ?ys)
    case Nil
    show ?thesis unfolding Nil by simp
  next
    case (Cons y0 ys')
    have "length (?xs @ ?ys) = length ?ks" by (simp only: takeWhile_dropWhile_id)
    with Cons have i: "length ?xs < length ?ks" by simp
    have "?ks ! length ?xs = hd ?ys"
      using i by (simp add: dropWhile_eq_drop hd_drop_conv_nth)
    with Cons have y0: "fst (b ! length ?xs) = y0" using i by simp
    from a i have "key < fst (b ! length ?xs)"
      by (auto simp: Bucket_Contains_def lower_bound_sorted [OF sd] Let_def)
    with y0 have k: "key < y0" by simp
    from sy Cons have "\<forall>y \<in> set ys'. y0 < y" by simp
    with k Cons show ?thesis by auto
  qed
  from sx sy lo hi have "sorted_wrt (<) (?xs @ key # ?ys)"
    by (fastforce simp: sorted_wrt_append)
  with True sd show ?thesis by (simp add: Bucket_sorted_def map_fst_Bucket_Insert)
qed

lemma sorted_Bucket_Remove:
  assumes "Bucket_sorted b"
  shows "Bucket_sorted (Bucket_Remove b key)"
proof -
  let ?i = "lower_bound (map fst b) key"
  let ?xs = "take ?i (map fst b)"
  let ?ys = "drop ?i (map fst b)"
  from assms have "sorted_wrt (<) (?xs @ ?ys)"
    by (simp add: Bucket_sorted_def)
  then have h: "sorted_wrt (<) ?xs \<and> sorted_wrt (<) ?ys
                \<and> (\<forall>x \<in> set ?xs. \<forall>y \<in> set ?ys. x < y)"
    using sorted_wrt_append [of "(<)" ?xs ?ys] by blast
  have d: "drop (Suc ?i) (map fst b) = drop 1 ?ys" by simp
  from h have "sorted_wrt (<) (drop 1 ?ys)" by (simp only: sorted_wrt_drop)
  moreover from h have "\<forall>x \<in> set ?xs. \<forall>y \<in> set (drop 1 ?ys). x < y"
    by (blast dest: in_set_dropD)
  ultimately have "sorted_wrt (<) (?xs @ drop (Suc ?i) (map fst b))"
    using h sorted_wrt_append [of "(<)" ?xs "drop 1 ?ys"] unfolding d by blast
  with assms show ?thesis
    by (simp add: Bucket_Remove_def Let_def Bucket_sorted_def take_map drop_map)
qed

lemma sorted_Distribute:
  assumes "Bucket_sorted this"
  shows "Bucket_sorted (fst (Distribute this other))
         \<and> Bucket_sorted (snd (Distribute this other))"
  using assms
  by (simp add: Distribute_def Let_def Bucket_sorted_def take_map [symmetric]
      drop_map [symmetric])

text \<open>
  In a sorted bucket the lookup finds exactly the offsets the bucket holds, and an offset
  that was inserted is found with its value.
\<close>

lemma Bucket_Contains_sorted:
  assumes "sorted (map fst b)"
  shows "Bucket_Contains b key \<longleftrightarrow> key \<in> fst ` set b"
proof -
  let ?ks = "map fst b"
  let ?i = "lower_bound ?ks key"
  have i: "?i = length (takeWhile (\<lambda>x. x < key) ?ks)" by (rule lower_bound_sorted [OF assms])
  show ?thesis
  proof
    assume "Bucket_Contains b key"
    then have lt: "?i < length ?ks" and nl: "\<not> key < ?ks ! ?i"
      using lower_bound_le [of ?ks key] by (auto simp: Bucket_Contains_def Let_def)
    from lower_bound_not_less [OF lt] nl have "?ks ! ?i = key" by simp
    with lt have "key \<in> set ?ks" by (metis nth_mem)
    then show "key \<in> fst ` set b" by simp
  next
    assume "key \<in> fst ` set b"
    then have m: "key \<in> set ?ks" by simp
    then obtain j where j: "j < length ?ks" "?ks ! j = key" by (auto simp: in_set_conv_nth)
    have "takeWhile (\<lambda>x. x < key) ?ks \<noteq> ?ks"
      using m by (auto simp: takeWhile_eq_all_conv)
    with i lower_bound_le [of ?ks key] have lt: "?i < length ?ks"
      by (metis le_neq_implies_less length_takeWhile_le takeWhile_eq_take take_all_iff order_refl)
    have "?i \<le> j"
    proof (rule ccontr)
      assume "\<not> ?i \<le> j"
      then have "j < length (takeWhile (\<lambda>x. x < key) ?ks)" using i by simp
      then have "?ks ! j < key" by (metis nth_mem set_takeWhileD takeWhile_nth)
      with j show False by simp
    qed
    with assms j have "?ks ! ?i \<le> key" by (metis sorted_nth_mono)
    with lt show "Bucket_Contains b key"
      by (simp add: Bucket_Contains_def Let_def)
  qed
qed

lemma Bucket_Value_Insert:
  assumes s: "Bucket_sorted b" and a: "\<not> Bucket_Contains b key"
      and l: "length b < SPARSE_BUCKET_SIZE sh"
  shows "Bucket_Value (snd (Bucket_Insert sh b key val)) key = Some val"
proof -
  let ?b' = "snd (Bucket_Insert sh b key val)"
  have s': "Bucket_sorted ?b'" by (rule sorted_Bucket_Insert [OF s a])
  then have sd: "sorted (map fst ?b')" and d: "distinct (map fst ?b')"
    by (simp_all add: Bucket_sorted_def strict_sorted_iff)
  from l have m: "(key, val) \<in> set ?b'" by (simp add: Bucket_Insert_def Let_def)
  then have "key \<in> fst ` set ?b'" by force
  with Bucket_Contains_sorted [OF sd] have "Bucket_Contains ?b' key" by simp
  then obtain v where v: "Bucket_Value ?b' key = Some v"
    by (auto simp: Bucket_Contains_iff_Value)
  let ?i = "lower_bound (map fst ?b') key"
  from v have f: "?i \<noteq> length ?b'" "fst (?b' ! ?i) = key" "snd (?b' ! ?i) = v"
    by (auto simp: Bucket_Value_def Let_def split: if_splits)
  with lower_bound_le [of "map fst ?b'" key] have "?i < length ?b'" by simp
  then have "?b' ! ?i \<in> set ?b'" by (rule nth_mem)
  moreover from f have "?b' ! ?i = (key, v)" by (simp add: prod_eq_iff)
  ultimately have "(key, v) \<in> set ?b'" by simp
  with m d have "v = val" by (metis eq_key_imp_eq_value)
  with v show ?thesis by simp
qed

text \<open>
  In a set whose buckets are all sorted and within the capacity, a key that \<^verbatim>\<open>Insert\<close>
  has added is found afterwards with the value it was given, and inserting it a second
  time changes nothing and returns the value of the first insert.
\<close>

lemma Insert_found_offset:
  assumes "GetBucketIndexAndOffset sh k = (bi, off)"
      and "m_sparse s bi = Some b"
      and "Bucket_Value b off = Some v"
  shows "SparseSet_Insert sh s k v2 = Inr (v, s)"
  using assms
  by (simp add: SparseSet_Insert_def GetOrCreateBucket_def Bucket_Contains_iff_Value)

lemma Insert_new_bucket:
  assumes g: "GetBucketIndexAndOffset sh k = (bi, off)"
      and e: "GetOrCreateBucket s bi = (b, s1)"
      and a: "\<not> Bucket_Contains b off"
      and sp: "Insert_split sh s1 bi b = (b2, s2)"
      and ins: "SparseSet_Insert sh s k v = Inr (r, s')"
  shows "m_sparse s' bi = Some (snd (Bucket_Insert sh b2 off v))"
  using ins g e a sp
  by (auto simp: SparseSet_Insert_def Let_def split: if_splits)

lemma Insert_split_bucket:
  assumes "Insert_split sh s bi b = (b2, s2)"
  shows "b2 = (if SPARSE_BUCKET_SIZE sh \<le> length b then take (length b div 2) b else b)"
  using assms
  by (auto simp: Insert_split_def Distribute_def Let_def split: if_splits prod.splits)

lemma SPARSE_BUCKET_SIZE_pos: "0 < SPARSE_BUCKET_SIZE sh"
  by (simp add: SPARSE_BUCKET_SIZE_def)

lemma Insert_new_key_found:
  assumes wf: "\<forall>j c. m_sparse s j = Some c
                 \<longrightarrow> Bucket_sorted c \<and> length c \<le> SPARSE_BUCKET_SIZE sh"
      and a: "\<not> SparseSet_Contains sh s k"
      and ins: "SparseSet_Insert sh s k v = Inr (r, s')"
  shows "SparseSet_Contains sh s' k \<and> SparseSet_Get iv sh s' k = v"
proof -
  obtain bi off where g: "GetBucketIndexAndOffset sh k = (bi, off)"
    by (cases "GetBucketIndexAndOffset sh k")
  obtain b s1 where e: "GetOrCreateBucket s bi = (b, s1)"
    by (cases "GetOrCreateBucket s bi")
  have b: "Bucket_sorted b \<and> length b \<le> SPARSE_BUCKET_SIZE sh \<and> \<not> Bucket_Contains b off"
  proof (cases "m_sparse s bi")
    case None
    with e have "b = []" by (simp add: GetOrCreateBucket_def)
    then show ?thesis by (simp add: Bucket_sorted_def Bucket_Contains_empty)
  next
    case (Some c)
    with e have "b = c" by (simp add: GetOrCreateBucket_def)
    with Some wf a g show ?thesis by (simp add: SparseSet_Contains_def)
  qed
  obtain b2 s2 where sp: "Insert_split sh s1 bi b = (b2, s2)"
    by (cases "Insert_split sh s1 bi b")
  note b2 = Insert_split_bucket [OF sp]
  from b have sb: "sorted (map fst b)" by (simp add: Bucket_sorted_def strict_sorted_imp_sorted)
  from b have nm: "off \<notin> fst ` set b" using Bucket_Contains_sorted [OF sb] by simp
  have s2: "Bucket_sorted b2"
    using b b2 sorted_Distribute [of b b] by (simp add: Distribute_def Let_def split: if_splits)
  then have sb2: "sorted (map fst b2)" by (simp add: Bucket_sorted_def strict_sorted_imp_sorted)
  have "set b2 \<subseteq> set b" using b2 by (auto split: if_splits dest: in_set_takeD)
  with nm have "off \<notin> fst ` set b2" by blast
  then have a2: "\<not> Bucket_Contains b2 off" using Bucket_Contains_sorted [OF sb2] by simp
  have l2: "length b2 < SPARSE_BUCKET_SIZE sh"
    using b b2 SPARSE_BUCKET_SIZE_pos [of sh] by (auto split: if_splits)
  from Insert_new_bucket [OF g e _ sp ins] b
  have "m_sparse s' bi = Some (snd (Bucket_Insert sh b2 off v))" by simp
  moreover note Bucket_Value_Insert [OF s2 a2 l2, of v]
  ultimately show ?thesis using g
    by (simp add: SparseSet_Contains_def SparseSet_Get_def Bucket_Contains_iff_Value)
qed

lemma Insert_twice:
  assumes wf: "\<forall>j c. m_sparse s j = Some c
                 \<longrightarrow> Bucket_sorted c \<and> length c \<le> SPARSE_BUCKET_SIZE sh"
      and ins: "SparseSet_Insert sh s k v1 = Inr (r, s1)"
  shows "\<exists>v. SparseSet_Insert sh s1 k v2 = Inr (v, s1)
             \<and> (\<not> SparseSet_Contains sh s k \<longrightarrow> v = v1)"
proof -
  obtain bi off where g: "GetBucketIndexAndOffset sh k = (bi, off)"
    by (cases "GetBucketIndexAndOffset sh k")
  show ?thesis
  proof (cases "SparseSet_Contains sh s k")
    case True
    with g obtain b v where b: "m_sparse s bi = Some b" "Bucket_Value b off = Some v"
      by (auto simp: SparseSet_Contains_def Bucket_Contains_iff_Value split: option.splits)
    from Insert_found_offset [OF g b] ins have "s1 = s" by simp
    with Insert_found_offset [OF g b, of v2] True show ?thesis by simp
  next
    case False
    from Insert_new_key_found [OF wf False ins, of 0] g
    obtain b where b: "m_sparse s1 bi = Some b" "Bucket_Value b off = Some v1"
      by (auto simp: SparseSet_Contains_def SparseSet_Get_def Bucket_Contains_iff_Value
          split: option.splits)
    from Insert_found_offset [OF g b, of v2] show ?thesis by simp
  qed
qed


text \<open>
  Without that premise the lookup can miss a key that was inserted. After the keys 1, 0
  and 1024 are inserted and key 0 is removed, \<^verbatim>\<open>Merge\<close> has left bucket 0 with the
  offsets 1, 0; the bisection does not find key 1 there, and \<^verbatim>\<open>Insert(1, 9)\<close> adds a
  second entry for it.
\<close>

lemma Insert_after_Merge_adds_key_again:
  "(case SparseSet_run 10 (SparseSet_new 1024 grow_twice)
           [Insert_op 1 0, Insert_op 0 1, Insert_op 1024 2, Remove_op 0] of
      Inl e \<Rightarrow> False
    | Inr s \<Rightarrow>
        m_sparse s 0 = Some [(1, 0), (0, 1)]
        \<and> \<not> SparseSet_Contains 10 s 1
        \<and> (case SparseSet_Insert 10 s 1 9 of
              Inl e \<Rightarrow> False
            | Inr (r, s') \<Rightarrow>
                m_sparse s' 0 = Some [(1, 0), (0, 1), (1, 9)] \<and> m_size s' = 3))"
  by (simp add: sparse_defs)

text \<open>
  C9. The entries of a bucket are claimed to stay sorted by offset under every operation.
  With the page size of the source, the keys 5 and 1023 go to bucket 0 and the keys 1024
  and 1025 to bucket 1, both sorted. \<^verbatim>\<open>Remove(5)\<close> leaves bucket 0 with one entry and
  \<^verbatim>\<open>Merge\<close> appends the entries of bucket 1 to it: the offsets of bucket 0 are then
  1023, 0, 1. Bucket 1 is erased with them, and key 1024 is no longer found.
\<close>

theorem C9_Merge_breaks_bucket_order:
  "(case SparseSet_run 10 (SparseSet_new 1024 grow_twice)
           [Insert_op 5 0, Insert_op 1023 1, Insert_op 1024 2, Insert_op 1025 3] of
      Inl e \<Rightarrow> False
    | Inr s \<Rightarrow>
        m_sparse s 0 = Some [(5, 0), (1023, 1)]
        \<and> m_sparse s 1 = Some [(0, 2), (1, 3)]
        \<and> Bucket_sorted [(5, 0), (1023, 1)] \<and> Bucket_sorted [(0, 2), (1, 3)]
        \<and> SparseSet_Contains 10 s 1024
        \<and> (case SparseSet_Remove 10 s 5 of
              Inl e \<Rightarrow> False
            | Inr s' \<Rightarrow>
                m_sparse s' 0 = Some [(1023, 1), (0, 2), (1, 0)]
                \<and> \<not> Bucket_sorted [(1023, 1), (0, 2), (1, 0)]
                \<and> m_sparse s' 1 = None
                \<and> \<not> SparseSet_Contains 10 s' 1024))"
  by (simp add: sparse_defs Bucket_sorted_def)

section \<open>Keyed packed storage\<close>

lemma Add_7: "PackedArray_Add PackedArray_new 7 ''x'' = Inr storage_7"
  by (simp add: packed_defs sparse_defs storage_7_def)

text \<open>
  C10. When a present key \<open>k\<close> is mapped to dense position 0, \<^verbatim>\<open>Get(k)\<close> returns the
  shared static dummy record and no record of the store, and \<^verbatim>\<open>Remove(k)\<close> returns at
  once with the storage unchanged: both test the position they looked up for truthiness.
\<close>

theorem C10_position_zero_is_treated_as_absent:
  assumes "SparseSet_Contains SPARSE_BUCKET_SHIFT (m_sparseSet p) k"
      and "SparseSet_Get iv SPARSE_BUCKET_SHIFT (m_sparseSet p) k = 0"
  shows "PackedArray_Get iv p k = Inr Dummy
         \<and> (\<forall>r. PackedArray_Get iv p k \<noteq> Inr (Stored r))
         \<and> PackedArray_Remove iv p k = Inr p"
  using assms(2) by (simp add: PackedArray_Get_def PackedArray_Remove_def)

text \<open>
  The witness: the storage after its first \<^verbatim>\<open>Add(7, "x")\<close>. Key 7 is present at position
  0, where the store holds its record.
\<close>

theorem C10_position_zero_witness:
  "SparseSet_Contains SPARSE_BUCKET_SHIFT (m_sparseSet storage_7) 7
   \<and> SparseSet_Get 0 SPARSE_BUCKET_SHIFT (m_sparseSet storage_7) 7 = 0
   \<and> DenseArray_GetByIndex (m_denseArray storage_7) 0 = Inr ''x''
   \<and> PackedArray_Get 0 storage_7 7 = Inr Dummy
   \<and> PackedArray_Remove 0 storage_7 7 = Inr storage_7"
proof -
  have c: "SparseSet_Contains SPARSE_BUCKET_SHIFT (m_sparseSet storage_7) 7"
    by (simp add: storage_7_def packed_defs sparse_defs)
  have g: "SparseSet_Get 0 SPARSE_BUCKET_SHIFT (m_sparseSet storage_7) 7 = 0"
    by (simp add: storage_7_def packed_defs sparse_defs)
  have r: "DenseArray_GetByIndex (m_denseArray storage_7) 0 = Inr ''x''"
    by (simp add: storage_7_def packed_defs)
  from c g r C10_position_zero_is_treated_as_absent [OF c g] show ?thesis by simp
qed

text \<open>
  C3, as amended. \<^verbatim>\<open>Get\<close> of a key that is not present does not fail with a
  key-not-found condition, whatever value the sparse index yields for a missing key; when
  that value is 0, the value \<^verbatim>\<open>Get\<close> tests the looked-up position for, it returns the
  shared static dummy record, the fallback the code has for a missing key.
\<close>

theorem C3_Get_absent_key:
  assumes "\<not> SparseSet_Contains SPARSE_BUCKET_SHIFT (m_sparseSet p) k"
  shows "PackedArray_Get iv p k \<noteq> Inl KeyDoesNotExist
         \<and> PackedArray_Get 0 p k = Inr Dummy"
  using absent_Get [OF assms, of iv] absent_Get [OF assms, of 0]
  by (simp add: PackedArray_Get_def DenseArray_GetByIndex_def)

text \<open>The witness: key 9 in the storage that holds key 7 only.\<close>

theorem C3_Get_absent_key_witness:
  "\<not> SparseSet_Contains SPARSE_BUCKET_SHIFT (m_sparseSet storage_7) 9
   \<and> PackedArray_Get SIZE_MAX storage_7 9 \<noteq> Inl KeyDoesNotExist
   \<and> PackedArray_Get 0 storage_7 9 = Inr Dummy"
proof -
  have a: "\<not> SparseSet_Contains SPARSE_BUCKET_SHIFT (m_sparseSet storage_7) 9"
    by (simp add: storage_7_def packed_defs sparse_defs)
  from a C3_Get_absent_key [OF a, of SIZE_MAX] show ?thesis by simp
qed

text \<open>
  The claim as stated fails: on a new storage key 7 is absent, and \<^verbatim>\<open>Get(7)\<close> returns
  the shared dummy record when the missing-key value is 0, and fails the assertion
  "Index out of range" when it is the largest \<^verbatim>\<open>size_t\<close>; neither is a key-not-found
  condition.
\<close>

theorem C3_Get_absent_key_counterexample:
  "\<not> SparseSet_Contains SPARSE_BUCKET_SHIFT
        (m_sparseSet (PackedArray_new :: string PackedArray)) 7
   \<and> PackedArray_Get 0 (PackedArray_new :: string PackedArray) 7 = Inr Dummy
   \<and> PackedArray_Get SIZE_MAX (PackedArray_new :: string PackedArray) 7 = Inl IndexOutOfRange"
  by (simp add: packed_defs sparse_defs SIZE_MAX_def)

text \<open>
  C2. \<^verbatim>\<open>Add(k, r)\<close> followed by \<^verbatim>\<open>Get(k)\<close> is claimed to return \<open>r\<close>. On a new
  storage, for every key \<open>k\<close> and record \<open>r\<close>, \<^verbatim>\<open>Add(k, r)\<close> succeeds and stores \<open>r\<close> at
  position 0 of the store, and \<^verbatim>\<open>Get(k)\<close> then returns the shared dummy record: the
  first record of a storage is never returned.
\<close>

theorem C2_first_record_is_not_returned:
  "\<forall>iv k r.
     (case PackedArray_Add PackedArray_new k r of
        Inl e \<Rightarrow> False
      | Inr p \<Rightarrow>
          SparseSet_Contains SPARSE_BUCKET_SHIFT (m_sparseSet p) k
          \<and> DenseArray_GetByIndex (m_denseArray p) 0 = Inr r
          \<and> PackedArray_Get iv p k = Inr Dummy)"
  by (simp add: packed_defs sparse_defs)

text \<open>
  The packed store on its own does swap-remove as described: in a store whose two vectors
  have the same length, removing a key that is not at the last position puts the last
  record and the last key into the vacated position, repoints that key and drops the
  tail.
\<close>

lemma DenseArray_Remove_moves_last:
  assumes len: "length (m_indexToKey d) = length (m_components d)"
      and k: "m_keyToIndex d key = Some i"
      and i: "i < length (m_components d) - 1"
  shows "\<exists>d'. DenseArray_Remove d key = Inr d'
              \<and> m_components d' = (butlast (m_components d))[i := last (m_components d)]
              \<and> m_indexToKey d' = (butlast (m_indexToKey d))[i := last (m_indexToKey d)]
              \<and> m_keyToIndex d' key = None
              \<and> (last (m_indexToKey d) \<noteq> key
                   \<longrightarrow> m_keyToIndex d' (last (m_indexToKey d)) = Some i)"
proof -
  from i have ne: "m_components d \<noteq> []" by auto
  with len have ne': "m_indexToKey d \<noteq> []" by auto
  from i len ne ne' k show ?thesis
    by (simp add: DenseArray_Remove_def Let_def butlast_list_update)
qed

text \<open>
  C1. Removing a key that is not last is claimed to move the last record into its place
  and to repoint the moved key, so that \<^verbatim>\<open>Get\<close> of the moved key returns its record.
  With the keys 10, 20, 30 added in this order, \<^verbatim>\<open>Remove(20)\<close> does move record "z" to
  position 1 of the store, but the sparse index still maps key 30 to position 2 and
  now maps a key 2 that was never added: \<^verbatim>\<open>Get(30)\<close> fails the assertion
  "Index out of range".
\<close>

theorem C1_Remove_non_last_key_loses_swapped_key:
  "\<forall>iv.
     (case PackedArray_run iv (PackedArray_new :: string PackedArray)
             [Add_op 10 ''x'', Add_op 20 ''y'', Add_op 30 ''z''] of
        Inl e \<Rightarrow> False
      | Inr p \<Rightarrow>
          PackedArray_Size p = 3
          \<and> SparseSet_Get iv SPARSE_BUCKET_SHIFT (m_sparseSet p) 20 = 1
          \<and> SparseSet_Get iv SPARSE_BUCKET_SHIFT (m_sparseSet p) 30 = 2
          \<and> PackedArray_Get iv p 30 = Inr (Stored ''z'')
          \<and> (case PackedArray_Remove iv p 20 of
                Inl e \<Rightarrow> False
              | Inr p' \<Rightarrow>
                  PackedArray_Size p' = 2
                  \<and> m_components (m_denseArray p') = [''x'', ''z'']
                  \<and> SparseSet_Get iv SPARSE_BUCKET_SHIFT (m_sparseSet p') 30 = 2
                  \<and> PackedArray_Get iv p' 30 = Inl IndexOutOfRange
                  \<and> SparseSet_Contains SPARSE_BUCKET_SHIFT (m_sparseSet p') 2))"
  by (simp add: packed_defs sparse_defs)

end
